theory Spec2Isabelle
  imports Complex_Main "HOL-Library.Word"
begin

section \<open>Signal-conditioning primitives of \<^verbatim>\<open>q/sfx.hpp\<close>\<close>

text \<open>
  Each struct of \<^verbatim>\<open>sfx.hpp\<close> is a record of its data members; each member function
  takes the record and returns the result together with the updated record, in the
  order the source assigns its members.

  Samples are \<^verbatim>\<open>float\<close> in the source. The records and the functions of
  \<^verbatim>\<open>dynamic_smoother\<close> and \<^verbatim>\<open>dynamic_lowpass\<close> are polymorphic in the sample
  type, as the template \<^verbatim>\<open>fast_downsample\<close> is in the source, and they are read at
  two types.
  \<^item> \<open>f32\<close>, IEEE-754 binary32 as defined below: every operation of the source is one
    operation rounded to nearest, ties to even, with overflow to an infinity, and with
    NaN. This is what the compiled code computes when each \<^verbatim>\<open>float\<close> expression is
    evaluated in \<^verbatim>\<open>float\<close>, operation by operation (\<^verbatim>\<open>FLT_EVAL_METHOD\<close> 0, no
    contraction into a fused multiply-add).
  \<^item> \<^typ>\<open>real\<close>, the exact arithmetic the source's formulas denote. It is used where
    the source leaves \<^verbatim>\<open>float\<close> (the constructor of \<^verbatim>\<open>dynamic_smoother\<close> and
    \<^verbatim>\<open>base_frequency\<close> compute in \<^verbatim>\<open>double\<close> and call \<^verbatim>\<open>std::tan\<close>), and for
    the detectors, whose properties below are about which member is written with
    which value and do not depend on the arithmetic.

  \<^verbatim>\<open>std::uint32_t\<close> is \<^typ>\<open>32 word\<close>, and \<^verbatim>\<open>frequency\<close> (a wrapper of one
  \<^verbatim>\<open>double\<close>, read by \<^verbatim>\<open>double(base)\<close>) is its value in Hz.

  At \<^typ>\<open>real\<close>, an equation between samples is an equation of exact arithmetic; the
  source computes both sides rounded. And a quotient with divisor 0 (\<^verbatim>\<open>sps\<close> equal
  to 0, or \<open>1 + gc = 0\<close>) is 0 in HOL but an infinity or a NaN in the source, as is
  \<open>tan\<close> at a pole: a statement about such a quotient tells about the source only
  where the divisor is not 0.
\<close>

type_synonym frequency = real

subsection \<open>Library templates used by the source\<close>

text \<open>
  \<^verbatim>\<open>std::min(a, b)\<close> is \<^verbatim>\<open>(b < a) ? b : a\<close> and \<^verbatim>\<open>std::max(a, b)\<close> is
  \<^verbatim>\<open>(a < b) ? b : a\<close>: when the comparison is false, also because an argument is
  NaN, the first argument is returned.
\<close>

definition std_min :: "'a::ord \<Rightarrow> 'a \<Rightarrow> 'a" where
  "std_min a b = (if b < a then b else a)"

definition std_max :: "'a::ord \<Rightarrow> 'a \<Rightarrow> 'a" where
  "std_max a b = (if a < b then b else a)"

subsection \<open>IEEE-754 binary32\<close>

text \<open>
  A \<^verbatim>\<open>float\<close> is a finite number, an infinity or NaN. A finite number is carried as
  the real number it denotes: \<open>Fin x\<close> stands for a \<^verbatim>\<open>float\<close> when \<open>is_f32 x\<close>,
  that is when \<open>x\<close> is 0, or \<open>|x| < 2 ^ 128\<close> and \<open>x\<close> is a multiple of the unit in the
  last place of its binade, 2 to the power \<open>max \<lfloor>log 2 |x|\<rfloor> (- 126) - 23\<close> (24
  significant bits; the clamp at \<open>- 126\<close> gives the subnormal numbers their spacing,
  2 to the power \<open>- 149\<close>). The two zeros are not told apart: they compare equal, and
  none of the functions below divides by a sample.

  \<open>rnd\<close> rounds the exact result of an operation to nearest, ties to even: to the
  nearest multiple of the unit in the last place of the result's own binade, and to an
  infinity when the rounded magnitude reaches \<open>2 ^ 128\<close>.
\<close>

datatype f32 = Fin real | PInf | NInf | NaN

definition round_even :: "real \<Rightarrow> int" where
  "round_even y =
     (let f = \<lfloor>y\<rfloor>;
          d = y - of_int f
      in if d < 1 / 2 then f
         else if 1 / 2 < d then f + 1
         else if even f then f else f + 1)"

definition ulp_exp :: "real \<Rightarrow> int" where
  "ulp_exp x = max \<lfloor>log 2 \<bar>x\<bar>\<rfloor> (- 126) - 23"

definition rnd :: "real \<Rightarrow> f32" where
  "rnd x =
     (if x = 0 then Fin 0
      else let e = ulp_exp x;
               y = of_int (round_even (x / 2 powi e)) * 2 powi e
           in if 2 ^ 128 \<le> y then PInf
              else if y \<le> - (2 ^ 128) then NInf
              else Fin y)"

definition is_f32 :: "real \<Rightarrow> bool" where
  "is_f32 x \<longleftrightarrow> x = 0 \<or> (\<bar>x\<bar> < 2 ^ 128 \<and> x / 2 powi ulp_exp x \<in> \<int>)"


text \<open>
  The operations. NaN propagates; \<open>inf - inf\<close>, \<open>0 * inf\<close>, \<open>0 / 0\<close> and
  \<open>inf / inf\<close> are NaN; otherwise an infinite operand decides the result with its
  sign; the result of finite operands is the exact result rounded. A comparison with a
  NaN operand is false.
\<close>

definition inf_signed :: "bool \<Rightarrow> f32" where
  "inf_signed positive = (if positive then PInf else NInf)"

fun f32_add :: "f32 \<Rightarrow> f32 \<Rightarrow> f32" where
  "f32_add NaN b = NaN"
| "f32_add a NaN = NaN"
| "f32_add PInf NInf = NaN"
| "f32_add NInf PInf = NaN"
| "f32_add PInf b = PInf"
| "f32_add a PInf = PInf"
| "f32_add NInf b = NInf"
| "f32_add a NInf = NInf"
| "f32_add (Fin x) (Fin y) = rnd (x + y)"

fun f32_sub :: "f32 \<Rightarrow> f32 \<Rightarrow> f32" where
  "f32_sub NaN b = NaN"
| "f32_sub a NaN = NaN"
| "f32_sub PInf PInf = NaN"
| "f32_sub NInf NInf = NaN"
| "f32_sub PInf b = PInf"
| "f32_sub a NInf = PInf"
| "f32_sub NInf b = NInf"
| "f32_sub a PInf = NInf"
| "f32_sub (Fin x) (Fin y) = rnd (x - y)"

fun f32_mul :: "f32 \<Rightarrow> f32 \<Rightarrow> f32" where
  "f32_mul NaN b = NaN"
| "f32_mul a NaN = NaN"
| "f32_mul (Fin x) (Fin y) = rnd (x * y)"
| "f32_mul (Fin x) b = (if x = 0 then NaN else inf_signed ((0 < x) = (b = PInf)))"
| "f32_mul a (Fin y) = (if y = 0 then NaN else inf_signed ((0 < y) = (a = PInf)))"
| "f32_mul a b = inf_signed (a = b)"

fun f32_div :: "f32 \<Rightarrow> f32 \<Rightarrow> f32" where
  "f32_div NaN b = NaN"
| "f32_div a NaN = NaN"
| "f32_div (Fin x) (Fin y) =
     (if y \<noteq> 0 then rnd (x / y) else if x = 0 then NaN else inf_signed (0 < x))"
| "f32_div (Fin x) b = Fin 0"
| "f32_div a (Fin y) = inf_signed ((0 \<le> y) = (a = PInf))"
| "f32_div a b = NaN"

fun f32_abs :: "f32 \<Rightarrow> f32" where
  "f32_abs (Fin x) = Fin \<bar>x\<bar>"
| "f32_abs PInf = PInf"
| "f32_abs NInf = PInf"
| "f32_abs NaN = NaN"

fun f32_less :: "f32 \<Rightarrow> f32 \<Rightarrow> bool" where
  "f32_less NaN b = False"
| "f32_less a NaN = False"
| "f32_less (Fin x) (Fin y) = (x < y)"
| "f32_less a NInf = False"
| "f32_less PInf b = False"
| "f32_less a b = True"

text \<open>
  With these, \<open>f32\<close> has the operators the source applies to a \<^verbatim>\<open>float\<close>. Its
  addition is not associative, so it is no instance of the numeral classes: a literal
  is written \<open>Fin 2\<close>.
\<close>

instantiation f32 :: "{zero, one, plus, minus, times, divide, abs, ord}"
begin

definition zero_f32 :: f32 where
  "zero_f32 = Fin 0"

definition one_f32 :: f32 where
  "one_f32 = Fin 1"

definition plus_f32 :: "f32 \<Rightarrow> f32 \<Rightarrow> f32" where
  "plus_f32 = f32_add"

definition minus_f32 :: "f32 \<Rightarrow> f32 \<Rightarrow> f32" where
  "minus_f32 = f32_sub"

definition times_f32 :: "f32 \<Rightarrow> f32 \<Rightarrow> f32" where
  "times_f32 = f32_mul"

definition divide_f32 :: "f32 \<Rightarrow> f32 \<Rightarrow> f32" where
  "divide_f32 = f32_div"

definition abs_f32 :: "f32 \<Rightarrow> f32" where
  "abs_f32 = f32_abs"

definition less_f32 :: "f32 \<Rightarrow> f32 \<Rightarrow> bool" where
  "less_f32 = f32_less"

definition less_eq_f32 :: "f32 \<Rightarrow> f32 \<Rightarrow> bool" where
  "less_eq_f32 a b \<longleftrightarrow> f32_less a b \<or> (a = b \<and> a \<noteq> NaN)"

instance ..

end

subsection \<open>\<^verbatim>\<open>fast_downsample\<close>\<close>

text \<open>
  The struct is a template over the sample type \<^verbatim>\<open>T\<close>, "the native integer or
  floating point sample type (e.g. uint16_t)". The embedding is polymorphic in the same
  way: \<open>div\<close> is the division of the sample type, exact on \<^typ>\<open>real\<close> and truncating
  on \<^typ>\<open>16 word\<close> (where \<open>+\<close> wraps at \<open>2 ^ 16\<close>, as the conversion of the
  returned \<^verbatim>\<open>int\<close> to \<^verbatim>\<open>uint16_t\<close> does). The member \<^verbatim>\<open>x\<close> is the field
  \<open>fd_x\<close>.
\<close>

record 'a fast_downsample =
  fd_x :: 'a

definition fast_downsample_init :: "'a::zero fast_downsample" where
  "fast_downsample_init = \<lparr>fd_x = 0\<rparr>"

definition fast_downsample_call ::
  "'a::{divide,numeral} \<Rightarrow> 'a \<Rightarrow> 'a fast_downsample \<Rightarrow> 'a \<times> 'a fast_downsample" where
  "fast_downsample_call s1 s2 st =
     (let out = fd_x st + (s1 div 2);
          st' = st\<lparr>fd_x := s2 div 4\<rparr>
      in (out + fd_x st', st'))"

text \<open>
  The caller's loop over a stream of sample pairs: one call per pair, in order, each on
  the state the previous call left.
\<close>

fun fast_downsample_run ::
  "('a::{divide,numeral} \<times> 'a) list \<Rightarrow> 'a fast_downsample \<Rightarrow> 'a list \<times> 'a fast_downsample" where
  "fast_downsample_run [] st = ([], st)"
| "fast_downsample_run ((s1, s2) # ps) st =
     (let (out, st') = fast_downsample_call s1 s2 st;
          (outs, st'') = fast_downsample_run ps st'
      in (out # outs, st''))"

text \<open>
  The instance at \<^verbatim>\<open>T = float\<close>. The body is the same; \<open>f32\<close> has no numerals, so
  the \<^verbatim>\<open>int\<close> literals \<^verbatim>\<open>2\<close> and \<^verbatim>\<open>4\<close>, which the usual arithmetic conversions turn
  into \<^verbatim>\<open>float\<close>, are written \<open>Fin 2\<close> and \<open>Fin 4\<close>.
\<close>

definition fast_downsample_call_f32 ::
  "f32 \<Rightarrow> f32 \<Rightarrow> f32 fast_downsample \<Rightarrow> f32 \<times> f32 fast_downsample" where
  "fast_downsample_call_f32 s1 s2 st =
     (let out = fd_x st + (s1 div Fin 2);
          st' = st\<lparr>fd_x := s2 div Fin 4\<rparr>
      in (out + fd_x st', st'))"

fun fast_downsample_run_f32 ::
  "(f32 \<times> f32) list \<Rightarrow> f32 fast_downsample \<Rightarrow> f32 list \<times> f32 fast_downsample" where
  "fast_downsample_run_f32 [] st = ([], st)"
| "fast_downsample_run_f32 ((s1, s2) # ps) st =
     (let (out, st') = fast_downsample_call_f32 s1 s2 st;
          (outs, st'') = fast_downsample_run_f32 ps st'
      in (out # outs, st''))"

subsection \<open>\<^verbatim>\<open>dynamic_smoother\<close>\<close>

text \<open>
  All five members are \<^verbatim>\<open>float\<close>. The constructors and \<^verbatim>\<open>base_frequency\<close> are
  given at \<^typ>\<open>real\<close> only: they divide in \<^verbatim>\<open>double\<close>, narrow \<^verbatim>\<open>wc\<close> to
  \<^verbatim>\<open>float\<close>, and call \<^verbatim>\<open>std::tan\<close>, whose rounding the language does not fix.
\<close>

record 'a dynamic_smoother =
  sense :: 'a
  wc :: 'a
  g0 :: 'a
  low1 :: 'a
  low2 :: 'a

definition dynamic_smoother_init3 ::
  "frequency \<Rightarrow> real \<Rightarrow> 32 word \<Rightarrow> real dynamic_smoother" where
  "dynamic_smoother_init3 base sensitivity sps =
     (let sense' = sensitivity * 4;
          wc' = base / real (unat sps);
          gc = tan (pi * wc')
      in \<lparr>sense = sense', wc = wc', g0 = 2 * gc / (1 + gc), low1 = 0, low2 = 0\<rparr>)"

definition dynamic_smoother_init2 :: "frequency \<Rightarrow> 32 word \<Rightarrow> real dynamic_smoother" where
  "dynamic_smoother_init2 base sps = dynamic_smoother_init3 base 0.5 sps"

text \<open>The coefficient \<^verbatim>\<open>g\<close> of \<^verbatim>\<open>operator()\<close>, from the registers before the update.\<close>

definition dynamic_smoother_g :: "'a::{plus,minus,times,abs,ord,one} dynamic_smoother \<Rightarrow> 'a" where
  "dynamic_smoother_g st =
     (let lowlz = low1 st;
          low2z = low2 st;
          bandz = lowlz - low2z
      in std_min (g0 st + sense st * \<bar>bandz\<bar>) 1)"

definition dynamic_smoother_call ::
  "'a::{plus,minus,times,abs,ord,one} \<Rightarrow> 'a dynamic_smoother \<Rightarrow> 'a \<times> 'a dynamic_smoother" where
  "dynamic_smoother_call s st =
     (let lowlz = low1 st;
          low2z = low2 st;
          g = dynamic_smoother_g st;
          st1 = st\<lparr>low1 := lowlz + g * (s - lowlz)\<rparr>;
          st2 = st1\<lparr>low2 := low2z + g * (low1 st1 - low2z)\<rparr>
      in (low2z, st2))"

definition base_frequency ::
  "frequency \<Rightarrow> 32 word \<Rightarrow> real dynamic_smoother \<Rightarrow> real dynamic_smoother" where
  "base_frequency base sps st =
     (let st1 = st\<lparr>wc := base / real (unat sps)\<rparr>;
          gc = tan (pi * wc st1)
      in st1\<lparr>g0 := 2 * gc / (1 + gc)\<rparr>)"

subsection \<open>\<^verbatim>\<open>dynamic_lowpass\<close>\<close>

text \<open>The member \<^verbatim>\<open>_y\<close> is the field \<open>dl_y\<close>.\<close>

record 'a dynamic_lowpass =
  dl_y :: 'a

definition dynamic_lowpass_init :: "'a::zero dynamic_lowpass" where
  "dynamic_lowpass_init = \<lparr>dl_y = 0\<rparr>"

definition dynamic_lowpass_call ::
  "'a::{plus,minus,times} \<Rightarrow> 'a \<Rightarrow> 'a dynamic_lowpass \<Rightarrow> 'a \<times> 'a dynamic_lowpass" where
  "dynamic_lowpass_call s a st =
     (let st' = st\<lparr>dl_y := dl_y st + a * (s - dl_y st)\<rparr>
      in (dl_y st', st'))"

text \<open>The \<^verbatim>\<open>const\<close> overload: the record it returns is the one it was given.\<close>

definition dynamic_lowpass_read :: "'a dynamic_lowpass \<Rightarrow> 'a \<times> 'a dynamic_lowpass" where
  "dynamic_lowpass_read st = (dl_y st, st)"

definition dynamic_lowpass_assign :: "'a \<Rightarrow> 'a dynamic_lowpass \<Rightarrow> 'a dynamic_lowpass" where
  "dynamic_lowpass_assign y0 st = st\<lparr>dl_y := y0\<rparr>"

subsection \<open>Collaborators declared in \<^verbatim>\<open>q/fx.hpp\<close>\<close>

text \<open>
  \<^verbatim>\<open>schmitt_trigger\<close>, \<^verbatim>\<open>one_pole_lowpass\<close> and \<^verbatim>\<open>peak_envelope_follower\<close>
  are members of the detectors below; their header is not among the sources. The
  detectors are therefore embedded over any collaborator: a member function of a
  collaborator with state \<open>'c\<close> is a function from its arguments and \<open>'c\<close> to its
  result and the new \<open>'c\<close>.
\<close>

type_synonym 'c comparator = "real \<Rightarrow> real \<Rightarrow> 'c \<Rightarrow> bool \<times> 'c"

type_synonym 'f filter = "real \<Rightarrow> 'f \<Rightarrow> real \<times> 'f"

text \<open>
  Modelled from the spec: \<^verbatim>\<open>schmitt_trigger\<close> (\<^verbatim>\<open>q/fx.hpp\<close> is missing). "Maintains
  one latched boolean; flips only when value moves past reference by more than half
  the configured hysteresis width in the direction opposite the last flip; otherwise
  returns the previous latched value unchanged."
\<close>

record schmitt_trigger =
  st_hysteresis :: real
  st_y :: bool

definition schmitt_trigger_init :: "real \<Rightarrow> schmitt_trigger" where
  "schmitt_trigger_init hysteresis = \<lparr>st_hysteresis = hysteresis, st_y = False\<rparr>"

definition schmitt_trigger_call :: "schmitt_trigger comparator" where
  "schmitt_trigger_call v r st =
     (let y' = (if \<not> st_y st \<and> r + st_hysteresis st / 2 < v then True
                else if st_y st \<and> v < r - st_hysteresis st / 2 then False
                else st_y st)
      in (y', st\<lparr>st_y := y'\<rparr>))"

text \<open>
  Modelled from the spec: \<^verbatim>\<open>one_pole_lowpass\<close> (\<^verbatim>\<open>q/fx.hpp\<close> is missing). "A single
  exponential smoothing stage"; \<open>lp_a\<close> is the coefficient its constructor derives from
  the cutoff frequency and the sampling rate (the spec gives no formula for it).
\<close>

record one_pole_lowpass =
  lp_a :: real
  lp_y :: real

definition one_pole_lowpass_call :: "one_pole_lowpass filter" where
  "one_pole_lowpass_call s st =
     (let st' = st\<lparr>lp_y := lp_y st + lp_a st * (s - lp_y st)\<rparr>
      in (lp_y st', st'))"

text \<open>
  Modelled from the spec: \<^verbatim>\<open>peak_envelope_follower\<close> (\<^verbatim>\<open>q/fx.hpp\<close> is missing).
  "Instantaneous rise, exponential decay toward zero over the configured duration";
  \<open>pe_d\<close> is the per-sample decay factor its constructor derives from the decay
  duration and the sampling rate (the spec gives no formula for it).
\<close>

record peak_envelope_follower =
  pe_d :: real
  pe_y :: real

definition peak_envelope_follower_call :: "peak_envelope_follower filter" where
  "peak_envelope_follower_call s st =
     (let st' = st\<lparr>pe_y := (if pe_y st < s then s else pe_y st * pe_d st)\<rparr>
      in (pe_y st', st'))"

subsection \<open>\<^verbatim>\<open>zero_cross\<close>\<close>

text \<open>
  The members \<^verbatim>\<open>_cmp\<close> and \<^verbatim>\<open>_state\<close> are the fields \<open>zc_cmp\<close> and
  \<open>zc_state\<close>. The constructor builds \<^verbatim>\<open>_cmp\<close> from the hysteresis with the
  comparator's constructor \<open>mk\<close>. \<^verbatim>\<open>operator()\<close> returns \<^verbatim>\<open>float\<close>: the
  comparator's \<^verbatim>\<open>bool\<close> converted, 1 for true and 0 for false.
\<close>

record 'c zero_cross =
  zc_cmp :: 'c
  zc_state :: bool

definition zero_cross_init :: "(real \<Rightarrow> 'c) \<Rightarrow> real \<Rightarrow> 'c zero_cross" where
  "zero_cross_init mk hysteresis = \<lparr>zc_cmp = mk hysteresis, zc_state = False\<rparr>"

definition zero_cross_call :: "'c comparator \<Rightarrow> real \<Rightarrow> 'c zero_cross \<Rightarrow> real \<times> 'c zero_cross" where
  "zero_cross_call cmp s st =
     (let (b, c') = cmp s 0 (zc_cmp st)
      in (of_bool b, st\<lparr>zc_cmp := c'\<rparr>))"

fun zero_cross_run :: "'c comparator \<Rightarrow> real list \<Rightarrow> 'c zero_cross \<Rightarrow> real list \<times> 'c zero_cross" where
  "zero_cross_run cmp [] st = ([], st)"
| "zero_cross_run cmp (s # ss) st =
     (let (out, st') = zero_cross_call cmp s st;
          (outs, st'') = zero_cross_run cmp ss st'
      in (out # outs, st''))"

subsection \<open>\<^verbatim>\<open>onset_detector\<close>\<close>

text \<open>
  The members \<^verbatim>\<open>_env\<close>, \<^verbatim>\<open>_sensitivity\<close>, \<^verbatim>\<open>_lp\<close>, \<^verbatim>\<open>_comp\<close> and
  \<^verbatim>\<open>_val\<close> are the fields \<open>od_env\<close> to \<open>od_val\<close>. The constructor is given the
  three collaborators as its initialiser list builds them (from the decay, the sampling
  rate and the literal \<^verbatim>\<open>-36_dB\<close>, by code of the missing headers).
\<close>

record ('e, 'l, 'c) onset_detector =
  od_env :: 'e
  od_sensitivity :: real
  od_lp :: 'l
  od_comp :: 'c
  od_val :: real

definition onset_detector_init :: "'e \<Rightarrow> real \<Rightarrow> 'l \<Rightarrow> 'c \<Rightarrow> ('e, 'l, 'c) onset_detector" where
  "onset_detector_init env0 sensitivity lp0 comp0 =
     \<lparr>od_env = env0, od_sensitivity = sensitivity, od_lp = lp0, od_comp = comp0, od_val = 0\<rparr>"

definition onset_detector_call ::
  "'e filter \<Rightarrow> 'l filter \<Rightarrow> 'c comparator \<Rightarrow> real \<Rightarrow> ('e, 'l, 'c) onset_detector
     \<Rightarrow> real \<times> ('e, 'l, 'c) onset_detector" where
  "onset_detector_call envf lpf compf s st =
     (let abs_s = \<bar>s\<bar>;
          (env, e') = envf abs_s (od_env st);
          st1 = st\<lparr>od_env := e'\<rparr>;
          (lp, l') = lpf env (od_lp st1);
          st2 = st1\<lparr>od_lp := l'\<rparr>;
          (above, c') = compf (env * od_sensitivity st2) lp (od_comp st2);
          st3 = st2\<lparr>od_comp := c'\<rparr>
      in if above
         then (let st4 = st3\<lparr>od_val := std_max (od_val st3) abs_s\<rparr> in (od_val st4, st4))
         else (0, st3\<lparr>od_val := 0\<rparr>))"

text \<open>The \<^verbatim>\<open>const\<close> overload.\<close>

definition onset_detector_read :: "('e, 'l, 'c) onset_detector \<Rightarrow> real \<times> ('e, 'l, 'c) onset_detector" where
  "onset_detector_read st = (od_val st, st)"

section \<open>Properties\<close>

subsection \<open>Rounding to binary32\<close>

text \<open>
  Facts about \<open>round_even\<close> and \<open>rnd\<close> used below: the rounded integer is within
  one half of its argument and a tie goes to the even neighbour; a number with a 24-bit
  significand \<open>z\<close> at exponent \<open>e\<close> is rounded by rounding \<open>z\<close>; a representable
  number is not changed; rounding does not cross a representable number.
\<close>

lemma round_even_of_int [simp]: "round_even (of_int k) = k"
  by (simp add: round_even_def)

lemma round_even_floor: "\<lfloor>y\<rfloor> \<le> round_even y" "round_even y \<le> \<lfloor>y\<rfloor> + 1"
  by (simp_all add: round_even_def Let_def)

lemma round_even_ge: "of_int n \<le> y \<Longrightarrow> n \<le> round_even y"
proof -
  assume "of_int n \<le> y"
  then have "n \<le> \<lfloor>y\<rfloor>" by (simp add: le_floor_iff)
  then show ?thesis using round_even_floor(1) [of y] by linarith
qed

lemma round_even_le: "y \<le> of_int n \<Longrightarrow> round_even y \<le> n"
proof (cases "y = of_int n")
  case True
  then show ?thesis by simp
next
  case False
  assume "y \<le> of_int n"
  with False have "y < of_int n" by simp
  then have "\<lfloor>y\<rfloor> < n" by (simp add: floor_less_iff)
  then show ?thesis using round_even_floor(2) [of y] by linarith
qed

lemma round_even_near: "\<bar>y - of_int k\<bar> < 1 / 2 \<Longrightarrow> round_even y = k"
proof -
  assume a: "\<bar>y - of_int k\<bar> < 1 / 2"
  show ?thesis
  proof (cases "of_int k \<le> y")
    case True
    then have "\<lfloor>y\<rfloor> = k" using a by (intro floor_unique) linarith+
    then show ?thesis using a True by (simp add: round_even_def Let_def)
  next
    case False
    then have "of_int k - 1 \<le> y \<and> y < of_int k" using a by linarith
    then have "\<lfloor>y\<rfloor> = k - 1" by (simp add: floor_eq_iff)
    then show ?thesis using a False by (simp add: round_even_def Let_def)
  qed
qed

lemma round_even_tie: "even k \<Longrightarrow> \<bar>y - of_int k\<bar> \<le> 1 / 2 \<Longrightarrow> round_even y = k"
proof -
  assume e: "even k" and a: "\<bar>y - of_int k\<bar> \<le> 1 / 2"
  consider "\<bar>y - of_int k\<bar> < 1 / 2" | "y = of_int k + 1 / 2" | "y = of_int k - 1 / 2"
    using a by linarith
  then show ?thesis
  proof cases
    case 1 then show ?thesis by (rule round_even_near)
  next
    case 2
    then have "\<lfloor>y\<rfloor> = k" by (intro floor_unique) simp_all
    then show ?thesis using 2 e by (simp add: round_even_def Let_def)
  next
    case 3
    then have "\<lfloor>y\<rfloor> = k - 1" by (intro floor_unique) simp_all
    then show ?thesis using 3 e by (simp add: round_even_def Let_def)
  qed
qed

lemma round_even_err: "\<bar>of_int (round_even y) - y\<bar> \<le> 1 / 2"
proof -
  have "of_int \<lfloor>y\<rfloor> \<le> y" "y < of_int \<lfloor>y\<rfloor> + 1" by linarith+
  then show ?thesis by (auto simp: round_even_def Let_def) 
qed

lemma binade_bounds:
  assumes "x \<noteq> 0"
  shows "2 powi \<lfloor>log 2 \<bar>x\<bar>\<rfloor> \<le> \<bar>x\<bar>" and "\<bar>x\<bar> < 2 powi (\<lfloor>log 2 \<bar>x\<bar>\<rfloor> + 1)"
proof -
  have pos: "0 < \<bar>x\<bar>" using assms by simp
  have "2 powr real_of_int \<lfloor>log 2 \<bar>x\<bar>\<rfloor> \<le> \<bar>x\<bar> \<and> \<bar>x\<bar> < 2 powr (real_of_int \<lfloor>log 2 \<bar>x\<bar>\<rfloor> + 1)"
    using floor_log_eq_powr_iff [of "\<bar>x\<bar>" 2 "\<lfloor>log 2 \<bar>x\<bar>\<rfloor>"] pos by simp
  moreover have "real_of_int \<lfloor>log 2 \<bar>x\<bar>\<rfloor> + 1 = real_of_int (\<lfloor>log 2 \<bar>x\<bar>\<rfloor> + 1)" by simp
  ultimately show "2 powi \<lfloor>log 2 \<bar>x\<bar>\<rfloor> \<le> \<bar>x\<bar>" and "\<bar>x\<bar> < 2 powi (\<lfloor>log 2 \<bar>x\<bar>\<rfloor> + 1)"
    by (simp_all only: powr_real_of_int' [of 2, simplified])
qed

lemma binade_unique:
  assumes "2 powi e \<le> \<bar>x\<bar>" and "\<bar>x\<bar> < 2 powi (e + 1)"
  shows "\<lfloor>log 2 \<bar>x\<bar>\<rfloor> = e"
proof -
  have "(0::real) < 2 powi e" by simp
  then have pos: "0 < \<bar>x\<bar>" using assms(1) by linarith
  have c: "(2::real) powr real_of_int e = 2 powi e" "(2::real) powr real_of_int (e + 1) = 2 powi (e + 1)"
    by (simp_all only: powr_real_of_int' [of 2, simplified])
  have "real_of_int e + 1 = real_of_int (e + 1)" by simp
  then have "2 powr real_of_int e \<le> \<bar>x\<bar> \<and> \<bar>x\<bar> < 2 powr (real_of_int e + 1)"
    using assms by (simp only: c)
  then show ?thesis
    using floor_log_eq_powr_iff [of "\<bar>x\<bar>" 2 e] pos by simp
qed

lemma ulp_exp_eq:
  "2 powi e \<le> \<bar>x\<bar> \<Longrightarrow> \<bar>x\<bar> < 2 powi (e + 1) \<Longrightarrow> ulp_exp x = max e (- 126) - 23"
  by (simp add: ulp_exp_def binade_unique)

lemma ulp_exp_scaled:
  assumes "2 ^ 23 \<le> \<bar>z\<bar>" and "\<bar>z\<bar> < 2 ^ 24" and "- 149 \<le> e"
  shows "ulp_exp (z * 2 powi e) = e"
proof -
  have p: "(0::real) < 2 powi e" by simp
  have a: "\<bar>z * 2 powi e\<bar> = \<bar>z\<bar> * 2 powi e" by (simp add: abs_mult)
  have l: "(2::real) powi (e + 23) = 2 ^ 23 * 2 powi e"
    by (simp add: power_int_add)
  have u: "(2::real) powi (e + 23 + 1) = 2 ^ 24 * 2 powi e"
    by (simp add: power_int_add)
  have "2 powi (e + 23) \<le> \<bar>z * 2 powi e\<bar>"
    unfolding a l using assms(1) p by (simp only: mult_le_cancel_right_pos)
  moreover have "\<bar>z * 2 powi e\<bar> < 2 powi (e + 23 + 1)"
    unfolding a u using assms(2) p by (simp only: mult_less_cancel_right_pos)
  ultimately have "ulp_exp (z * 2 powi e) = max (e + 23) (- 126) - 23"
    by (rule ulp_exp_eq)
  then show ?thesis using assms(3) by simp
qed

lemma rnd_scaled:
  assumes "2 ^ 23 \<le> \<bar>z\<bar>" and "\<bar>z\<bar> < 2 ^ 24" and "- 149 \<le> e"
  shows "rnd (z * 2 powi e) =
    (if 2 ^ 128 \<le> real_of_int (round_even z) * 2 powi e then PInf
     else if real_of_int (round_even z) * 2 powi e \<le> - (2 ^ 128) then NInf
     else Fin (real_of_int (round_even z) * 2 powi e))"
proof -
  have nz: "z * 2 powi e \<noteq> 0" using assms(1) by auto
  have q: "z * 2 powi e / 2 powi e = z" by simp
  show ?thesis
    using nz by (simp add: rnd_def Let_def ulp_exp_scaled [OF assms] q del: mult_eq_0_iff)
qed

lemma rnd_id: "is_f32 x \<Longrightarrow> rnd x = Fin x"
proof (cases "x = 0")
  case True
  then show ?thesis by (simp add: rnd_def)
next
  case False
  assume "is_f32 x"
  with False have b: "\<bar>x\<bar> < 2 ^ 128" and "x / 2 powi ulp_exp x \<in> \<int>"
    by (simp_all add: is_f32_def)
  then obtain k where k: "x / 2 powi ulp_exp x = of_int k"
    by (auto elim: Ints_cases)
  have "x / 2 powi ulp_exp x * 2 powi ulp_exp x = x"
    by simp
  then have y: "of_int (round_even (x / 2 powi ulp_exp x)) * 2 powi ulp_exp x = x"
    by (simp only: k round_even_of_int)
  show ?thesis
    using False b unfolding rnd_def Let_def y by (simp add: abs_less_iff)
qed

lemma is_f32_scaled:
  assumes "2 ^ 23 \<le> \<bar>real_of_int k\<bar>" and "\<bar>real_of_int k\<bar> < 2 ^ 24" and "- 149 \<le> e" and "e \<le> 104"
  shows "is_f32 (real_of_int k * 2 powi e)"
proof -
  have p: "(0::real) < 2 powi e" by simp
  have "(2::real) powi e \<le> 2 powi 104"
    using assms(4) by (intro power_int_increasing) simp_all
  then have "\<bar>real_of_int k\<bar> * 2 powi e < 2 ^ 24 * 2 powi 104"
    using assms(2) p by (intro mult_less_le_imp_less) simp_all
  then have "\<bar>real_of_int k * 2 powi e\<bar> < 2 ^ 128"
    by (simp add: abs_mult)
  moreover have "real_of_int k * 2 powi e / 2 powi ulp_exp (real_of_int k * 2 powi e) \<in> \<int>"
    by (simp add: ulp_exp_scaled [OF assms(1-3)])
  ultimately show ?thesis
    by (simp add: is_f32_def)
qed

lemmas f32_arith = plus_f32_def minus_f32_def times_f32_def divide_f32_def abs_f32_def
  less_f32_def less_eq_f32_def zero_f32_def one_f32_def inf_signed_def

text \<open>Roundings at the concrete numbers of the examples below.\<close>

lemma round_even_numeral [simp]:
  "round_even (numeral n) = numeral n" "round_even (- numeral n) = - numeral n"
  "round_even 0 = 0" "round_even 1 = 1"
  using round_even_of_int [of "numeral n"] round_even_of_int [of "- numeral n"]
    round_even_of_int [of 0] round_even_of_int [of 1]
  by simp_all

lemma rnd_0 [simp]: "rnd 0 = Fin 0"
  by (simp add: rnd_def)

lemma rnd_1 [simp]: "rnd 1 = Fin 1"
  using rnd_scaled [of "2 ^ 23" "- 23"] by (simp add: power_int_minus)

lemma rnd_pow127: "rnd (2 ^ 127) = Fin (2 ^ 127)" "rnd (- (2 ^ 127)) = Fin (- (2 ^ 127))"
  using rnd_scaled [of "2 ^ 23" 104] rnd_scaled [of "- (2 ^ 23)" 104] by simp_all

lemma rnd_pow128: "rnd (- (2 ^ 128)) = NInf" "rnd (2 ^ 128) = PInf"
  using rnd_scaled [of "- (2 ^ 23)" 105] rnd_scaled [of "2 ^ 23" 105] by simp_all


lemma f32_normal_decomp:
  assumes f: "is_f32 x" and l: "2 powi L \<le> \<bar>x\<bar>" and L: "- 126 \<le> L"
  obtains k e where "x = real_of_int k * 2 powi e" and "2 ^ 23 \<le> \<bar>real_of_int k\<bar>"
    and "\<bar>real_of_int k\<bar> < 2 ^ 24" and "L - 23 \<le> e" and "e \<le> 104"
proof -
  define E where "E = \<lfloor>log 2 \<bar>x\<bar>\<rfloor>"
  have "(0::real) < 2 powi L" by simp
  then have "0 < \<bar>x\<bar>" using l by linarith
  then have nz: "x \<noteq> 0" by simp
  have b1: "2 powi E \<le> \<bar>x\<bar>" and b2: "\<bar>x\<bar> < 2 powi (E + 1)"
    unfolding E_def using binade_bounds [OF nz] by simp_all
  have big: "\<bar>x\<bar> < 2 ^ 128" and grid: "x / 2 powi ulp_exp x \<in> \<int>"
    using f nz by (simp_all add: is_f32_def)
  have LE: "L \<le> E"
  proof (rule ccontr)
    assume "\<not> L \<le> E"
    then have "E + 1 \<le> L" by simp
    then have "(2::real) powi (E + 1) \<le> 2 powi L" by (intro power_int_increasing) simp_all
    then show False using l b2 by linarith
  qed
  have E127: "E \<le> 127"
  proof (rule ccontr)
    assume "\<not> E \<le> 127"
    then have "128 \<le> E" by simp
    then have "(2::real) powi 128 \<le> 2 powi E" by (intro power_int_increasing) simp_all
    then show False using b1 big by simp
  qed
  have ue: "ulp_exp x = E - 23"
    using LE L by (simp add: ulp_exp_def E_def [symmetric])
  obtain k where k: "x / 2 powi (E - 23) = real_of_int k"
    using grid unfolding ue by (auto elim: Ints_cases)
  have p: "(0::real) < 2 powi (E - 23)" by simp
  have "x / 2 powi (E - 23) * 2 powi (E - 23) = x" by simp
  then have x: "x = real_of_int k * 2 powi (E - 23)" by (simp only: k)
  have ax: "\<bar>x\<bar> = \<bar>real_of_int k\<bar> * 2 powi (E - 23)"
    by (subst x) (simp add: abs_mult)
  have pE: "(2::real) powi E = 2 ^ 23 * 2 powi (E - 23)"
    using power_int_add [of "2::real" 23 "E - 23"] by simp
  have pE1: "(2::real) powi (E + 1) = 2 ^ 24 * 2 powi (E - 23)"
    using power_int_add [of "2::real" 24 "E - 23"] by (simp add: add.commute)
  have k1: "2 ^ 23 \<le> \<bar>real_of_int k\<bar>"
    using b1 p unfolding ax pE by (simp only: mult_le_cancel_right_pos)
  have k2: "\<bar>real_of_int k\<bar> < 2 ^ 24"
    using b2 p unfolding ax pE1 by (simp only: mult_less_cancel_right_pos)
  show ?thesis
    using that [of k "E - 23"] x k1 k2 LE E127 by simp
qed

lemma scaled_below_overflow:
  assumes "\<bar>real_of_int n\<bar> < 2 ^ 24" and "e \<le> 104"
  shows "\<not> 2 ^ 128 \<le> real_of_int n * 2 powi e" and "\<not> real_of_int n * 2 powi e \<le> - (2 ^ 128)"
proof -
  have p: "(0::real) < 2 powi e" by simp
  have "(2::real) powi e \<le> 2 powi 104"
    using assms(2) by (intro power_int_increasing) simp_all
  then have "\<bar>real_of_int n\<bar> * 2 powi e < 2 ^ 24 * 2 powi 104"
    using assms(1) p by (intro mult_less_le_imp_less) simp_all
  then have "\<bar>real_of_int n * 2 powi e\<bar> < 2 ^ 128"
    by (simp add: abs_mult)
  then show "\<not> 2 ^ 128 \<le> real_of_int n * 2 powi e" and "\<not> real_of_int n * 2 powi e \<le> - (2 ^ 128)"
    by linarith+
qed

lemma scaled_below_overflow':
  assumes "\<bar>real_of_int n\<bar> \<le> 2 ^ 24" and "e \<le> 103"
  shows "\<not> 2 ^ 128 \<le> real_of_int n * 2 powi e" and "\<not> real_of_int n * 2 powi e \<le> - (2 ^ 128)"
proof -
  have p: "(0::real) < 2 powi e" by simp
  have "(2::real) powi e \<le> 2 powi 103"
    using assms(2) by (intro power_int_increasing) simp_all
  then have "\<bar>real_of_int n\<bar> * 2 powi e \<le> 2 ^ 24 * 2 powi 103"
    using assms(1) p by (intro mult_mono) simp_all
  then have "\<bar>real_of_int n * 2 powi e\<bar> < 2 ^ 128"
    by (simp add: abs_mult)
  then show "\<not> 2 ^ 128 \<le> real_of_int n * 2 powi e" and "\<not> real_of_int n * 2 powi e \<le> - (2 ^ 128)"
    by linarith+
qed

lemma rnd_subnormal:
  assumes "x \<noteq> 0" and "\<bar>x\<bar> < 2 powi (- 126)"
  shows "rnd x = Fin (real_of_int (round_even (x / 2 powi (- 149))) * 2 powi (- 149))"
proof -
  define E where "E = \<lfloor>log 2 \<bar>x\<bar>\<rfloor>"
  have b1: "2 powi E \<le> \<bar>x\<bar>"
    unfolding E_def using binade_bounds(1) [OF assms(1)] .
  have "E < - 126"
  proof (rule ccontr)
    assume "\<not> E < - 126"
    then have "(2::real) powi (- 126) \<le> 2 powi E" by (intro power_int_increasing) simp_all
    then show False using b1 assms(2) by linarith
  qed
  then have ue: "ulp_exp x = - 149"
    by (simp add: ulp_exp_def E_def [symmetric])
  define n where "n = round_even (x / 2 powi (- 149))"
  have p: "(0::real) < 2 powi (- 149)" by simp
  have "\<bar>x\<bar> / 2 powi (- 149) < 2 powi (- 126) / 2 powi (- 149)"
    using assms(2) p by (simp only: divide_strict_right_mono)
  also have "(2::real) powi (- 126) / 2 powi (- 149) = 2 ^ 23"
    using power_int_diff [of "2::real" "- 126" "- 149"] by simp
  finally have q: "\<bar>x / 2 powi (- 149)\<bar> < 2 ^ 23"
    by simp
  have "- (2 ^ 23) \<le> n" "n \<le> 2 ^ 23"
    unfolding n_def using q by (intro round_even_ge round_even_le; simp)+
  then have "\<bar>real_of_int n\<bar> \<le> 2 ^ 24"
    using of_int_le_iff [of "\<bar>n\<bar>" "2 ^ 24", where ?'a = real] by simp
  then have no: "\<not> 2 ^ 128 \<le> real_of_int n * 2 powi (- 149)" "\<not> real_of_int n * 2 powi (- 149) \<le> - (2 ^ 128)"
    by (intro scaled_below_overflow'; simp)+
  show ?thesis
    using assms(1) no unfolding rnd_def Let_def ue n_def by (simp only: if_False)
qed




lemma is_f32_examples:
  "is_f32 1" "is_f32 (1 / 2)" "is_f32 (1 / 4)" "is_f32 2" "is_f32 (- 10)" "is_f32 (- (19 / 2))"
  using is_f32_scaled [of "2 ^ 23" "- 23"] is_f32_scaled [of "2 ^ 23" "- 24"]
    is_f32_scaled [of "2 ^ 23" "- 25"] is_f32_scaled [of "2 ^ 23" "- 22"]
    is_f32_scaled [of "- 10485760" "- 20"] is_f32_scaled [of "- 9961472" "- 20"]
  by simp_all

subsection \<open>Dynamic low-pass\<close>




subsection \<open>Antialias downsampler\<close>


subsection \<open>Antialias downsampler on a constant stream\<close>

lemma fast_downsample_run_stable:
  "fd_x st = c div 4 \<Longrightarrow>
   fst (fast_downsample_run (replicate n (c, c)) st) = replicate n (c div 4 + c div 2 + c div 4)"
proof (induction n)
  case 0
  show ?case by simp
next
  case (Suc n)
  have keep: "snd (fast_downsample_call c c st) = st"
    using Suc.prems by (simp add: fast_downsample_call_def Let_def)
  have out: "fst (fast_downsample_call c c st) = c div 4 + c div 2 + c div 4"
    using Suc.prems by (simp add: fast_downsample_call_def Let_def)
  show ?case
    using Suc keep out by (simp add: split_beta Let_def)
qed

lemma fast_downsample_run_after_first:
  "tl (fst (fast_downsample_run (replicate (Suc n) (c, c)) st))
     = replicate n (c div 4 + c div 2 + c div 4)"
proof -
  have "fd_x (snd (fast_downsample_call c c st)) = c div 4"
    by (simp add: fast_downsample_call_def Let_def)
  from fast_downsample_run_stable [OF this, of n] show ?thesis
    by (simp add: split_beta Let_def)
qed

lemma nat_quarters_le: "(n::nat) div 4 + n div 2 + n div 4 \<le> n"
  by arith

lemma nat_quarters_eq: "((n::nat) div 4 + n div 2 + n div 4 = n) \<longleftrightarrow> n mod 4 = 0"
proof -
  define q r where "q = n div 4" and "r = n mod 4"
  have n: "n = 2 * (2 * q) + r" and r: "r < 4"
    by (simp_all add: q_def r_def)
  have "(2 * (2 * q) + r) div 2 = 2 * q + r div 2"
    by simp
  then have h: "n div 2 = 2 * q + r div 2"
    by (simp only: n [symmetric])
  have "r div 2 = r \<longleftrightarrow> r = 0"
    by linarith
  then show ?thesis
    unfolding h q_def [symmetric] r_def [symmetric] using n by linarith
qed

lemma word16_quarters_unat:
  "unat (w div 4 + w div 2 + w div 4) = unat w div 4 + unat w div 2 + unat w div 4"
  for w :: "16 word"
proof -
  define K :: nat where "K = 2 ^ LENGTH(16)"
  have lt: "unat w < K"
    unfolding K_def by (rule unsigned_less)
  have q: "unat (w div 4) = unat w div 4" and h: "unat (w div 2) = unat w div 2"
    by (simp_all add: unat_div)
  have "unat (w div 4) + unat (w div 2) < K"
    using lt nat_quarters_le [of "unat w"] unfolding q h by linarith
  then have s1: "unat (w div 4 + w div 2) = unat w div 4 + unat w div 2"
    unfolding q [symmetric] h [symmetric] K_def by (simp only: unat_add_lem)
  have "unat (w div 4 + w div 2) + unat (w div 4) < K"
    using lt nat_quarters_le [of "unat w"] unfolding s1 q by linarith
  then have "unat (w div 4 + w div 2 + w div 4) = unat (w div 4 + w div 2) + unat (w div 4)"
    unfolding K_def by (simp only: unat_add_lem)
  then show ?thesis
    by (simp only: s1 q)
qed

lemma word16_quarters:
  "(w div 4 + w div 2 + w div 4 = w) \<longleftrightarrow> unat w mod 4 = 0" for w :: "16 word"
proof -
  have "(w div 4 + w div 2 + w div 4 = w) \<longleftrightarrow> unat (w div 4 + w div 2 + w div 4) = unat w"
    by (simp only: word_unat_eq_iff)
  also have "\<dots> \<longleftrightarrow> unat w mod 4 = 0"
    unfolding word16_quarters_unat by (rule nat_quarters_eq)
  finally show ?thesis .
qed

text \<open>
  In \<^verbatim>\<open>float\<close>: a normal number \<open>x = k * 2 ^ e\<close> with \<open>x/4\<close> normal too has exact
  quotients \<open>x/2\<close> and \<open>x/4\<close>. Their sum \<open>3x/4\<close> is rounded, by at most half a
  unit of \<open>x\<close>; adding \<open>x/4\<close> gives \<open>x\<close> up to that error, which the second
  rounding removes. Where the error is exactly half a unit, \<open>k\<close> is even and the tie
  goes to \<open>k\<close>.
\<close>

lemma quarters_final:
  fixes k d e :: int
  assumes k1: "2 ^ 23 \<le> \<bar>k\<bar>" and k2: "\<bar>k\<bar> < 2 ^ 24" and e: "- 149 \<le> e" "e \<le> 104"
    and d: "\<bar>d\<bar> \<le> 2" and tie: "\<bar>d\<bar> = 2 \<Longrightarrow> even k" and edge: "d \<noteq> 0 \<Longrightarrow> 2 ^ 23 < \<bar>k\<bar>"
  shows "rnd (real_of_int (4 * k + d) / 4 * 2 powi e) = Fin (real_of_int k * 2 powi e)"
proof -
  define z where "z = real_of_int (4 * k + d) / 4"
  have z: "z = real_of_int k + real_of_int d / 4"
    by (simp add: z_def)
  have rk1: "2 ^ 23 \<le> \<bar>real_of_int k\<bar>"
    using k1 of_int_le_iff [of "2 ^ 23" "\<bar>k\<bar>", where ?'a = real] by simp
  have "\<bar>k\<bar> \<le> 2 ^ 24 - 1" using k2 by simp
  then have rk2: "\<bar>real_of_int k\<bar> \<le> 2 ^ 24 - 1"
    using of_int_le_iff [of "\<bar>k\<bar>" "2 ^ 24 - 1", where ?'a = real] by simp
  have rd: "\<bar>real_of_int d\<bar> \<le> 2"
    using d of_int_le_iff [of "\<bar>d\<bar>" 2, where ?'a = real] by simp
  have lo: "2 ^ 23 \<le> \<bar>z\<bar>"
  proof (cases "d = 0")
    case True
    then show ?thesis using rk1 by (simp add: z)
  next
    case False
    then have "2 ^ 23 + 1 \<le> \<bar>k\<bar>" using edge by simp
    then have "2 ^ 23 + 1 \<le> \<bar>real_of_int k\<bar>"
      using of_int_le_iff [of "2 ^ 23 + 1" "\<bar>k\<bar>", where ?'a = real] by simp
    then show ?thesis using rd unfolding z by linarith
  qed
  have hi: "\<bar>z\<bar> < 2 ^ 24"
    using rk2 rd unfolding z by linarith
  have r: "round_even z = k"
  proof (cases "even k")
    case True
    have "\<bar>z - real_of_int k\<bar> \<le> 1 / 2" using rd unfolding z by linarith
    with True show ?thesis by (rule round_even_tie)
  next
    case False
    then have "\<bar>d\<bar> \<noteq> 2" using tie by blast
    then have "\<bar>d\<bar> \<le> 1" using d by linarith
    then have "\<bar>real_of_int d\<bar> \<le> 1"
      using of_int_le_iff [of "\<bar>d\<bar>" 1, where ?'a = real] by simp
    then have "\<bar>z - real_of_int k\<bar> < 1 / 2" unfolding z by linarith
    then show ?thesis by (rule round_even_near)
  qed
  have "\<bar>real_of_int k\<bar> < 2 ^ 24" using rk2 by linarith
  note no = scaled_below_overflow [OF this e(2)]
  show ?thesis
    unfolding z_def [symmetric] using rnd_scaled [OF lo hi e(1)] no by (simp only: r if_False)
qed

lemma quarters_sum:
  fixes k e :: int
  assumes k1: "2 ^ 23 \<le> \<bar>k\<bar>" and k2: "\<bar>k\<bar> < 2 ^ 24" and e: "- 147 \<le> e" "e \<le> 104"
  shows "\<exists>r. rnd (real_of_int k * 2 powi e / 4 + real_of_int k * 2 powi e / 2) = Fin r
    \<and> rnd (r + real_of_int k * 2 powi e / 4) = Fin (real_of_int k * 2 powi e)"
proof -
  define p :: real where "p = 2 powi e"
  have e149: "- 149 \<le> e" using e(1) by simp
  have rk: "real_of_int \<bar>3 * k\<bar> = \<bar>real_of_int (3 * k)\<bar>" by simp
  show ?thesis
  proof (cases "2 ^ 25 \<le> \<bar>3 * k\<bar>")
    case True
    define z where "z = real_of_int (3 * k) / 4"
    define n where "n = round_even z"
    define d where "d = 4 * n - 3 * k"
    have "\<bar>3 * k\<bar> \<le> 3 * 2 ^ 24 - 3" using k2 by simp
    then have u: "\<bar>real_of_int (3 * k)\<bar> \<le> 3 * 2 ^ 24 - 3"
      using of_int_le_iff [of "\<bar>3 * k\<bar>" "3 * 2 ^ 24 - 3", where ?'a = real] by simp
    have l: "2 ^ 25 \<le> \<bar>real_of_int (3 * k)\<bar>"
      using True of_int_le_iff [of "2 ^ 25" "\<bar>3 * k\<bar>", where ?'a = real] by simp
    have lo: "2 ^ 23 \<le> \<bar>z\<bar>" and hi: "\<bar>z\<bar> < 2 ^ 24"
      using l u unfolding z_def by simp_all
    have err: "\<bar>real_of_int n - z\<bar> \<le> 1 / 2"
      unfolding n_def by (rule round_even_err)
    have "real_of_int d = 4 * (real_of_int n - z)"
      by (simp add: d_def z_def)
    then have "\<bar>real_of_int d\<bar> \<le> 2"
      using err by argo
    then have d2: "\<bar>d\<bar> \<le> 2"
      using of_int_le_iff [of "\<bar>d\<bar>" 2, where ?'a = real] by simp
    have "\<bar>z\<bar> \<le> 2 ^ 24 - 1"
      using u unfolding z_def by simp
    then have nb: "\<bar>real_of_int n\<bar> < 2 ^ 24"
      using err by linarith
    have s: "real_of_int k * p / 4 + real_of_int k * p / 2 = z * p"
      by (simp add: z_def)
    have r1: "rnd (z * p) = Fin (real_of_int n * p)"
      unfolding p_def n_def
      using rnd_scaled [OF lo hi e149] scaled_below_overflow [OF nb [unfolded n_def] e(2)]
      by (simp only: if_False)
    have s2: "real_of_int n * p + real_of_int k * p / 4 = real_of_int (4 * k + d) / 4 * p"
      by (simp add: d_def field_simps)
    have tie: "even k" if "\<bar>d\<bar> = 2"
      using that unfolding d_def by presburger
    have edge: "2 ^ 23 < \<bar>k\<bar>"
      using True by simp
    have "rnd (real_of_int (4 * k + d) / 4 * p) = Fin (real_of_int k * p)"
      unfolding p_def using k1 k2 e149 e(2) d2 tie edge by (rule quarters_final)
    then have fin: "rnd (real_of_int n * p + real_of_int k * p / 4) = Fin (real_of_int k * p)"
      by (simp only: s2)
    show ?thesis
      unfolding p_def [symmetric]
    proof (intro exI conjI)
      show "rnd (real_of_int k * p / 4 + real_of_int k * p / 2) = Fin (real_of_int n * p)"
        by (simp only: s r1)
      show "rnd (real_of_int n * p + real_of_int k * p / 4) = Fin (real_of_int k * p)"
        by (rule fin)
    qed
  next
    case False
    define z where "z = real_of_int (3 * k) / 2"
    define n where "n = round_even z"
    define d where "d = 2 * n - 3 * k"
    have "\<bar>3 * k\<bar> \<le> 2 ^ 25 - 1" using False by simp
    then have u: "\<bar>real_of_int (3 * k)\<bar> \<le> 2 ^ 25 - 1"
      using of_int_le_iff [of "\<bar>3 * k\<bar>" "2 ^ 25 - 1", where ?'a = real] by simp
    have "3 * 2 ^ 23 \<le> \<bar>3 * k\<bar>" using k1 by simp
    then have l: "3 * 2 ^ 23 \<le> \<bar>real_of_int (3 * k)\<bar>"
      using of_int_le_iff [of "3 * 2 ^ 23" "\<bar>3 * k\<bar>", where ?'a = real] by simp
    have lo: "2 ^ 23 \<le> \<bar>z\<bar>" and hi: "\<bar>z\<bar> < 2 ^ 24"
      using l u unfolding z_def by simp_all
    have err: "\<bar>real_of_int n - z\<bar> \<le> 1 / 2"
      unfolding n_def by (rule round_even_err)
    have "real_of_int d = 2 * (real_of_int n - z)"
      by (simp add: d_def z_def)
    then have "\<bar>real_of_int d\<bar> \<le> 1"
      using err by argo
    then have d1: "\<bar>d\<bar> \<le> 1"
      using of_int_le_iff [of "\<bar>d\<bar>" 1, where ?'a = real] by simp
    then have d2: "\<bar>d\<bar> \<le> 2" by simp
    have "\<bar>z\<bar> \<le> 2 ^ 24 - 1 / 2"
      using u unfolding z_def by simp
    then have nb: "\<bar>real_of_int n\<bar> \<le> 2 ^ 24"
      using err by linarith
    have e1: "- 149 \<le> e - 1" "e - 1 \<le> 103" using e by simp_all
    have p2: "2 powi (e - 1) = p / 2"
      unfolding p_def using power_int_diff [of "2::real" e 1] by simp
    have s: "real_of_int k * p / 4 + real_of_int k * p / 2 = z * 2 powi (e - 1)"
      by (simp add: z_def p2)
    have r1: "rnd (z * 2 powi (e - 1)) = Fin (real_of_int n * 2 powi (e - 1))"
      unfolding n_def
      using rnd_scaled [OF lo hi e1(1)] scaled_below_overflow' [OF nb [unfolded n_def] e1(2)]
      by (simp only: if_False)
    have s2: "real_of_int n * 2 powi (e - 1) + real_of_int k * p / 4 = real_of_int (4 * k + d) / 4 * p"
      by (simp add: d_def p2 field_simps)
    have tie: "even k" if "\<bar>d\<bar> = 2"
      using that d1 by simp
    have edge: "2 ^ 23 < \<bar>k\<bar>" if "d \<noteq> 0"
    proof -
      have odd: "odd k" using that d1 unfolding d_def by presburger
      have "\<bar>k\<bar> \<noteq> 2 ^ 23"
      proof
        assume "\<bar>k\<bar> = 2 ^ 23"
        then have "k = 2 ^ 23 \<or> k = - (2 ^ 23)" by linarith
        then have "even k" by auto
        with odd show False by simp
      qed
      then show ?thesis using k1 by simp
    qed
    have "rnd (real_of_int (4 * k + d) / 4 * p) = Fin (real_of_int k * p)"
      unfolding p_def using k1 k2 e149 e(2) d2 tie edge by (rule quarters_final)
    then have fin: "rnd (real_of_int n * 2 powi (e - 1) + real_of_int k * p / 4) = Fin (real_of_int k * p)"
      by (simp only: s2)
    show ?thesis
      unfolding p_def [symmetric]
    proof (intro exI conjI)
      show "rnd (real_of_int k * p / 4 + real_of_int k * p / 2) = Fin (real_of_int n * 2 powi (e - 1))"
        by (simp only: s r1)
      show "rnd (real_of_int n * 2 powi (e - 1) + real_of_int k * p / 4) = Fin (real_of_int k * p)"
        by (rule fin)
    qed
  qed
qed

lemma f32_halves:
  assumes "is_f32 x" and "2 powi (- 124) \<le> \<bar>x\<bar>"
  shows "rnd (x / 2) = Fin (x / 2)" and "rnd (x / 4) = Fin (x / 4)"
    and "\<exists>r. rnd (x / 4 + x / 2) = Fin r \<and> rnd (r + x / 4) = Fin x"
proof -
  obtain k e where x: "x = real_of_int k * 2 powi e" and k1: "2 ^ 23 \<le> \<bar>real_of_int k\<bar>"
    and k2: "\<bar>real_of_int k\<bar> < 2 ^ 24" and e1: "- 124 - 23 \<le> e" and e2: "e \<le> 104"
    using f32_normal_decomp [OF assms] by auto
  have h: "2 powi (e - 1) = (2::real) powi e / 2" "2 powi (e - 2) = (2::real) powi e / 4"
    using power_int_diff [of "2::real" e 1] power_int_diff [of "2::real" e 2] by simp_all
  have "is_f32 (real_of_int k * 2 powi (e - 1))"
    using k1 k2 e1 e2 by (intro is_f32_scaled) simp_all
  then show "rnd (x / 2) = Fin (x / 2)"
    unfolding x h by (simp add: rnd_id)
  have "is_f32 (real_of_int k * 2 powi (e - 2))"
    using k1 k2 e1 e2 by (intro is_f32_scaled) simp_all
  then show "rnd (x / 4) = Fin (x / 4)"
    unfolding x h by (simp add: rnd_id)
  have i1: "2 ^ 23 \<le> \<bar>k\<bar>"
    using k1 of_int_le_iff [of "2 ^ 23" "\<bar>k\<bar>", where ?'a = real] by simp
  have i2: "\<bar>k\<bar> < 2 ^ 24"
    using k2 of_int_less_iff [of "\<bar>k\<bar>" "2 ^ 24", where ?'a = real] by simp
  show "\<exists>r. rnd (x / 4 + x / 2) = Fin r \<and> rnd (r + x / 4) = Fin x"
    unfolding x using i1 i2 e1 e2 by (intro quarters_sum) simp_all
qed

lemma fast_downsample_f32_step:
  assumes "is_f32 x" and "2 powi (- 124) \<le> \<bar>x\<bar>"
  shows "fd_x (snd (fast_downsample_call_f32 s1 (Fin x) st)) = Fin (x / 4)"
    and "fast_downsample_call_f32 (Fin x) (Fin x) \<lparr>fd_x = Fin (x / 4)\<rparr> = (Fin x, \<lparr>fd_x = Fin (x / 4)\<rparr>)"
proof -
  note h = f32_halves [OF assms]
  have d2: "Fin x div Fin 2 = Fin (x / 2)" and d4: "Fin x div Fin 4 = Fin (x / 4)"
    by (simp_all add: divide_f32_def h)
  show "fd_x (snd (fast_downsample_call_f32 s1 (Fin x) st)) = Fin (x / 4)"
    by (simp add: fast_downsample_call_f32_def Let_def d4)
  obtain r where r: "rnd (x / 4 + x / 2) = Fin r" "rnd (r + x / 4) = Fin x"
    using h(3) by blast
  have o: "Fin (x / 4) + Fin (x / 2) = Fin r"
    by (simp only: plus_f32_def f32_add.simps r)
  have f: "Fin r + Fin (x / 4) = Fin x"
    by (simp only: plus_f32_def f32_add.simps r)
  show "fast_downsample_call_f32 (Fin x) (Fin x) \<lparr>fd_x = Fin (x / 4)\<rparr> = (Fin x, \<lparr>fd_x = Fin (x / 4)\<rparr>)"
    by (simp add: fast_downsample_call_f32_def Let_def d2 d4 o f)
qed

lemma fast_downsample_run_f32_stable:
  assumes "is_f32 x" and "2 powi (- 124) \<le> \<bar>x\<bar>"
  shows "fst (fast_downsample_run_f32 (replicate n (Fin x, Fin x)) \<lparr>fd_x = Fin (x / 4)\<rparr>) = replicate n (Fin x)"
  by (induction n) (simp_all add: fast_downsample_f32_step(2) [OF assms] split_beta)

lemma fast_downsample_run_f32_after_first:
  assumes "is_f32 x" and "2 powi (- 124) \<le> \<bar>x\<bar>"
  shows "tl (fst (fast_downsample_run_f32 (replicate (Suc n) (Fin x, Fin x)) st)) = replicate n (Fin x)"
proof -
  obtain out st' where c: "fast_downsample_call_f32 (Fin x) (Fin x) st = (out, st')"
    by (cases "fast_downsample_call_f32 (Fin x) (Fin x) st")
  have "fd_x st' = Fin (x / 4)"
    using fast_downsample_f32_step(1) [OF assms, of "Fin x" st] by (simp add: c)
  then have "st' = \<lparr>fd_x = Fin (x / 4)\<rparr>"
    by (cases st') simp
  then show ?thesis
    using fast_downsample_run_f32_stable [OF assms, of n] by (simp add: c split_beta)
qed

lemma fast_downsample_subnormal_underflow:
  "is_f32 (2 powi (- 149))
   \<and> fst (fast_downsample_run_f32 (replicate 3 (Fin (2 powi (- 149)), Fin (2 powi (- 149)))) \<lparr>fd_x = 0\<rparr>)
       = [Fin 0, Fin 0, Fin 0]"
proof -
  have "ulp_exp (2 powi (- 149)) = - 149"
    using ulp_exp_eq [of "- 149" "2 powi (- 149)"] by simp
  then have "is_f32 (2 powi (- 149))"
    by (simp add: is_f32_def)
  moreover have "rnd (2 powi (- 149) / 2) = Fin 0" "rnd (2 powi (- 149) / 4) = Fin 0"
    using rnd_subnormal [of "2 powi (- 149) / 2"] rnd_subnormal [of "2 powi (- 149) / 4"]
    by (simp_all add: round_even_def)
  ultimately show ?thesis
    by (simp add: numeral_3_eq_3 fast_downsample_call_f32_def Let_def f32_arith)
qed

text \<open>
  C6 as stated, for every constant \<open>c\<close> of every sample type, fails on the integer
  sample type the source names: on \<^verbatim>\<open>uint16_t\<close> the constant pair \<open>(1, 1)\<close> gives
  the output 0 on every call, since \<open>1/2\<close> and \<open>1/4\<close> truncate to 0.
\<close>

theorem fast_downsample_constant_uint16_counterexample:
  "fst (fast_downsample_run (replicate 3 (1::16 word, 1)) fast_downsample_init) = [0, 0, 0]
   \<and> tl (fst (fast_downsample_run (replicate 3 (1::16 word, 1)) fast_downsample_init))
       \<noteq> [1, 1]"
  by (simp add: numeral_3_eq_3 fast_downsample_call_def fast_downsample_init_def Let_def)

text \<open>
  C6, amended. On \<^verbatim>\<open>uint16_t\<close> samples, feeding the pair \<open>(c, c)\<close> repeatedly, from
  any carry, gives \<open>c/4 + c/2 + c/4\<close> in truncating division on every call after the
  first; that is never more than \<open>c\<close>, and it is \<open>c\<close> exactly when \<open>c\<close> is a
  multiple of 4. On \<^verbatim>\<open>float\<close> samples every call after the first gives exactly \<open>c\<close>
  for every finite \<open>c\<close> of magnitude at least 2 to the power \<open>- 124\<close> (so that
  \<open>c/4\<close> is a normal number); below that the quotients can underflow, and the
  smallest positive \<^verbatim>\<open>float\<close>, 2 to the power \<open>- 149\<close>, gives 0 on each of the
  first three calls from the zero carry.
\<close>

theorem fast_downsample_constant:
  "tl (fst (fast_downsample_run (replicate (Suc n) (w::16 word, w)) st))
     = replicate n (w div 4 + w div 2 + w div 4)
   \<and> unat (w div 4 + w div 2 + w div 4) \<le> unat w
   \<and> (w div 4 + w div 2 + w div 4 = w \<longleftrightarrow> unat w mod 4 = 0)
   \<and> (is_f32 x \<and> 2 powi (- 124) \<le> \<bar>x\<bar> \<longrightarrow>
        tl (fst (fast_downsample_run_f32 (replicate (Suc n) (Fin x, Fin x)) st')) = replicate n (Fin x))
   \<and> is_f32 (2 powi (- 149))
   \<and> fst (fast_downsample_run_f32 (replicate 3 (Fin (2 powi (- 149)), Fin (2 powi (- 149)))) \<lparr>fd_x = 0\<rparr>)
       = [Fin 0, Fin 0, Fin 0]"
proof (intro conjI impI)
  show "tl (fst (fast_downsample_run (replicate (Suc n) (w, w)) st))
      = replicate n (w div 4 + w div 2 + w div 4)"
    by (rule fast_downsample_run_after_first)
  show "unat (w div 4 + w div 2 + w div 4) \<le> unat w"
    unfolding word16_quarters_unat by (rule nat_quarters_le)
  show "w div 4 + w div 2 + w div 4 = w \<longleftrightarrow> unat w mod 4 = 0"
    by (rule word16_quarters)
  show "tl (fst (fast_downsample_run_f32 (replicate (Suc n) (Fin x, Fin x)) st')) = replicate n (Fin x)"
    if "is_f32 x \<and> 2 powi (- 124) \<le> \<bar>x\<bar>"
    using that by (intro fast_downsample_run_f32_after_first) simp_all
  show "is_f32 (2 powi (- 149))"
    using fast_downsample_subnormal_underflow by (rule conjunct1)
  show "fst (fast_downsample_run_f32 (replicate 3 (Fin (2 powi (- 149)), Fin (2 powi (- 149)))) \<lparr>fd_x = 0\<rparr>)
      = [Fin 0, Fin 0, Fin 0]"
    using fast_downsample_subnormal_underflow by (rule conjunct2)
qed

theorem fast_downsample_constant_witness:
  "is_f32 1 \<and> 2 powi (- 124) \<le> \<bar>1::real\<bar>
   \<and> tl (fst (fast_downsample_run_f32 (replicate (Suc 2) (Fin 1, Fin 1)) \<lparr>fd_x = NaN\<rparr>))
       = replicate 2 (Fin 1)"
proof -
  have h: "is_f32 1 \<and> 2 powi (- 124) \<le> \<bar>1::real\<bar>"
    using is_f32_examples(1) by simp
  then show ?thesis
    using fast_downsample_constant [of 2 0 _ 1 "\<lparr>fd_x = NaN\<rparr>"] by blast
qed

subsection \<open>Self-modulating smoother\<close>

text \<open>
  C1 as stated fails in \<^verbatim>\<open>float\<close>: \<^verbatim>\<open>std::min(x, 1.0f)\<close> returns \<open>x\<close> when \<open>x\<close>
  is NaN. In a state with \<open>g0 = 1\<close> and \<open>sense = 2\<close> whose two registers are the
  same infinity, \<open>low1 - low2\<close> is NaN and so is \<open>g\<close>, and NaN is not at most 1.
  Two finite samples lead there from the zero registers: after \<open>2 ^ 127\<close> both
  registers are \<open>2 ^ 127\<close>, and after \<open>- 2 ^ 127\<close> the difference
  \<open>s - low1 = - 2 ^ 128\<close> overflows and both registers are the negative infinity.
\<close>

theorem dynamic_smoother_g_nan_counterexample:
  "dynamic_smoother_g \<lparr>sense = Fin 2, wc = Fin (1 / 4), g0 = Fin 1, low1 = NInf, low2 = NInf\<rparr> = NaN
   \<and> \<not> (NaN \<le> (1::f32))
   \<and> snd (dynamic_smoother_call (Fin (- (2 ^ 127)))
        (snd (dynamic_smoother_call (Fin (2 ^ 127))
           \<lparr>sense = Fin 2, wc = Fin (1 / 4), g0 = Fin 1, low1 = 0, low2 = 0\<rparr>)))
       = \<lparr>sense = Fin 2, wc = Fin (1 / 4), g0 = Fin 1, low1 = NInf, low2 = NInf\<rparr>"
  by (simp add: dynamic_smoother_call_def dynamic_smoother_g_def std_min_def Let_def f32_arith
      rnd_pow127 [simplified] rnd_pow128 [simplified])

text \<open>
  C1, amended. In every state of \<^verbatim>\<open>dynamic_smoother\<close> the coefficient \<open>g\<close> that
  \<^verbatim>\<open>operator()\<close> computes in \<^verbatim>\<open>float\<close> is 1 when
  \<open>1 < g0 + sense * |low1 - low2|\<close> and \<open>g0 + sense * |low1 - low2|\<close> otherwise. So
  \<open>g\<close> is NaN or at most 1, however large \<open>|low1 - low2|\<close> is, and it is NaN exactly
  when \<open>g0 + sense * |low1 - low2|\<close> is NaN. It is the coefficient the update of
  \<open>low1\<close> uses.
\<close>

theorem dynamic_smoother_g_le_1_or_nan:
  fixes st :: "f32 dynamic_smoother"
  shows "(dynamic_smoother_g st = NaN \<or> dynamic_smoother_g st \<le> 1)
   \<and> (dynamic_smoother_g st = NaN \<longleftrightarrow> g0 st + sense st * \<bar>low1 st - low2 st\<bar> = NaN)
   \<and> dynamic_smoother_g st
       = (if 1 < g0 st + sense st * \<bar>low1 st - low2 st\<bar> then 1 else g0 st + sense st * \<bar>low1 st - low2 st\<bar>)
   \<and> low1 (snd (dynamic_smoother_call s st)) = low1 st + dynamic_smoother_g st * (s - low1 st)"
proof -
  let ?X = "g0 st + sense st * \<bar>low1 st - low2 st\<bar>"
  have g: "dynamic_smoother_g st = std_min ?X 1"
    by (simp add: dynamic_smoother_g_def Let_def)
  have a: "(std_min ?X 1 = NaN \<or> std_min ?X 1 \<le> 1) \<and> (std_min ?X 1 = NaN \<longleftrightarrow> ?X = NaN)"
    by (cases ?X) (auto simp: std_min_def less_f32_def less_eq_f32_def one_f32_def)
  have b: "std_min ?X 1 = (if 1 < ?X then 1 else ?X)"
    by (simp add: std_min_def)
  have c: "low1 (snd (dynamic_smoother_call s st)) = low1 st + dynamic_smoother_g st * (s - low1 st)"
    by (simp add: dynamic_smoother_call_def Let_def)
  show ?thesis
    using a b c unfolding g by blast
qed

text \<open>
  C4. \<^verbatim>\<open>dynamic_smoother::operator()\<close> returns \<open>low2\<close> as it was before the call,
  and stores \<open>low1' = low1 + g * (s - low1)\<close> and \<open>low2' = low2 + g * (low1' - low2)\<close>
  with \<open>g = std::min(g0 + sense * |low1 - low2|, 1)\<close>, that is 1 when
  \<open>1 < g0 + sense * |low1 - low2|\<close> and \<open>g0 + sense * |low1 - low2|\<close> otherwise; the
  configuration members are not touched. The value stored in \<open>low2\<close> is what the
  next call returns: the output lags the state by one sample. This holds at every sample
  type (first conjunct, in particular in \<^verbatim>\<open>float\<close>); in exact arithmetic \<open>g\<close> is
  \<open>min (g0 + sense * |low1 - low2|) 1\<close> (second conjunct).
\<close>

theorem dynamic_smoother_call_spec:
  fixes st :: "'a::{plus,minus,times,abs,ord,one} dynamic_smoother" and r :: "real dynamic_smoother"
  shows "(let x = g0 st + sense st * \<bar>low1 st - low2 st\<bar>;
              g = (if 1 < x then 1 else x);
              l1 = low1 st + g * (s - low1 st);
              l2 = low2 st + g * (l1 - low2 st)
          in dynamic_smoother_call s st = (low2 st, st\<lparr>low1 := l1, low2 := l2\<rparr>)
             \<and> fst (dynamic_smoother_call s' (snd (dynamic_smoother_call s st))) = l2)
   \<and> (let g = min (g0 r + sense r * \<bar>low1 r - low2 r\<bar>) 1;
           l1 = low1 r + g * (u - low1 r);
           l2 = low2 r + g * (l1 - low2 r)
       in dynamic_smoother_call u r = (low2 r, r\<lparr>low1 := l1, low2 := l2\<rparr>))"
  by (simp add: dynamic_smoother_call_def dynamic_smoother_g_def std_min_def Let_def min_def)

text \<open>
  C7. \<^verbatim>\<open>dynamic_smoother::base_frequency\<close> stores \<open>wc = base / sps\<close> and
  \<open>g0 = 2 * gc / (1 + gc)\<close> with \<open>gc = tan (pi * wc)\<close>, and leaves \<open>low1\<close>,
  \<open>low2\<close> (and \<open>sense\<close>) as they were.
\<close>

theorem base_frequency_frame:
  "low1 (base_frequency base sps st) = low1 st
   \<and> low2 (base_frequency base sps st) = low2 st
   \<and> sense (base_frequency base sps st) = sense st
   \<and> wc (base_frequency base sps st) = base / real (unat sps)
   \<and> g0 (base_frequency base sps st)
       = 2 * tan (pi * (base / real (unat sps))) / (1 + tan (pi * (base / real (unat sps))))"
  by (simp add: base_frequency_def Let_def)

subsection \<open>Self-modulating smoother: range of the coefficients\<close>

text \<open>
  The formula of \<open>g0\<close> in exact arithmetic: for a base cutoff strictly between 0 and
  half the sampling rate it lies in \<open>(0, 2)\<close>, and it is at most 1 exactly when the
  cutoff is at most a quarter of the sampling rate. The \<open>g0\<close> the source stores is this
  value computed from \<open>wc\<close> rounded to \<^verbatim>\<open>float\<close>, through \<^verbatim>\<open>std::tan\<close> in
  \<^verbatim>\<open>double\<close>, and rounded to \<^verbatim>\<open>float\<close> again; these roundings can move it onto
  the end points 0 and 2, so the lemmas below bound the formula, not the stored
  \<^verbatim>\<open>float\<close>.
\<close>

lemma g0_formula_bounds:
  fixes gc :: real
  assumes "0 < gc"
  shows "0 < 2 * gc / (1 + gc)" and "2 * gc / (1 + gc) < 2"
    and "2 * gc / (1 + gc) \<le> 1 \<longleftrightarrow> gc \<le> 1"
  using assms by (simp_all add: field_simps)

lemma tan_pi_fraction_pos:
  fixes w :: real
  assumes "0 < w" and "w < 1 / 2"
  shows "0 < tan (pi * w)"
proof (rule tan_gt_zero)
  show "0 < pi * w" using assms by simp
  have "pi * w < pi * (1 / 2)" using assms by (simp only: mult_strict_left_mono pi_gt_zero)
  then show "pi * w < pi / 2" by simp
qed

lemma tan_pi_fraction_le_1:
  fixes w :: real
  assumes "0 < w" and "w < 1 / 2"
  shows "tan (pi * w) \<le> 1 \<longleftrightarrow> w \<le> 1 / 4"
proof -
  have "0 < pi * w"
    using assms(1) pi_gt_zero by (rule_tac mult_pos_pos)
  then have lo: "- (pi / 2) < pi * w"
    using pi_gt_zero by linarith
  have "pi * w < pi * (1 / 2)"
    using assms(2) pi_gt_zero by (rule mult_strict_left_mono)
  then have hi: "pi * w < pi / 2"
    by simp
  have q: "- (pi / 2) < pi / 4" "pi / 4 < pi / 2"
    using pi_gt_zero by linarith+
  have A: "tan (pi * w) \<le> tan (pi / 4) \<longleftrightarrow> pi * w \<le> pi / 4"
    using lo hi q by (rule tan_mono_le_eq)
  have "pi * w \<le> pi * (1 / 4) \<longleftrightarrow> w \<le> 1 / 4"
    using pi_gt_zero by (rule mult_le_cancel_left_pos)
  then have B: "pi * w \<le> pi / 4 \<longleftrightarrow> w \<le> 1 / 4"
    by simp
  show ?thesis
    using A B by (simp only: tan_45)
qed

lemma dynamic_smoother_g0_bounds:
  assumes "0 < base" and "base < real (unat sps) / 2"
  shows "0 < g0 (dynamic_smoother_init3 base sensitivity sps)"
    and "g0 (dynamic_smoother_init3 base sensitivity sps) < 2"
    and "g0 (dynamic_smoother_init3 base sensitivity sps) \<le> 1 \<longleftrightarrow> base \<le> real (unat sps) / 4"
    and "g0 (base_frequency base sps st) = g0 (dynamic_smoother_init3 base sensitivity sps)"
proof -
  let ?w = "base / real (unat sps)"
  have sps: "0 < real (unat sps)"
    using assms by linarith
  have w: "0 < ?w" "?w < 1 / 2"
    using assms sps by (simp_all add: field_simps)
  have gc: "0 < tan (pi * ?w)"
    using w by (rule tan_pi_fraction_pos)
  have g0: "g0 (dynamic_smoother_init3 base sensitivity sps) = 2 * tan (pi * ?w) / (1 + tan (pi * ?w))"
    by (simp add: dynamic_smoother_init3_def Let_def)
  show "0 < g0 (dynamic_smoother_init3 base sensitivity sps)"
    unfolding g0 using gc by (rule g0_formula_bounds(1))
  show "g0 (dynamic_smoother_init3 base sensitivity sps) < 2"
    unfolding g0 using gc by (rule g0_formula_bounds(2))
  have "?w \<le> 1 / 4 \<longleftrightarrow> base \<le> real (unat sps) / 4"
    using sps by (simp add: field_simps)
  then show "g0 (dynamic_smoother_init3 base sensitivity sps) \<le> 1 \<longleftrightarrow> base \<le> real (unat sps) / 4"
    unfolding g0 using g0_formula_bounds(3) [OF gc] tan_pi_fraction_le_1 [OF w] by (simp only:)
  show "g0 (base_frequency base sps st) = g0 (dynamic_smoother_init3 base sensitivity sps)"
    unfolding g0 by (simp add: base_frequency_def Let_def)
qed


text \<open>
  The clamp of \<open>g\<close> is one-sided: with a negative \<open>sense\<close> the coefficient \<open>g\<close>
  can be negative.
\<close>

lemma dynamic_smoother_negative_sense:
  "dynamic_smoother_g \<lparr>sense = Fin (- 40), wc = Fin (1 / 4), g0 = Fin (1 / 2),
      low1 = Fin (1 / 2), low2 = Fin (1 / 4)\<rparr> = Fin (- (19 / 2))
   \<and> \<not> (0 < Fin (- (19 / 2)))"
  using is_f32_examples [THEN rnd_id]
  by (simp add: dynamic_smoother_g_def std_min_def Let_def f32_arith)

text \<open>
  The registers do not stay within the inputs seen so far. With \<open>g0 = 1\<close>, from the
  zero registers, the sample \<open>- 1\<close> sets both registers to \<open>- 1\<close>; the next sample
  \<open>3 / 2 ^ 25\<close> gives \<open>s - low1 = 1 + 3 / 2 ^ 25\<close>, which rounds up to
  \<open>1 + 1 / 2 ^ 23\<close>, and \<open>low1\<close> becomes \<open>1 / 2 ^ 23\<close>, above both samples.
\<close>

lemma is_f32_examples_small:
  "is_f32 (- 1)" "is_f32 (8388609 / 8388608)" "is_f32 (1 / 8388608)"
  using is_f32_scaled [of "- (2 ^ 23)" "- 23"] is_f32_scaled [of "8388609" "- 23"]
    is_f32_scaled [of "2 ^ 23" "- 46"]
  by simp_all

lemma rnd_above_1: "rnd (33554435 / 33554432) = Fin (8388609 / 8388608)"
proof -
  have "round_even (33554435 / 4) = 8388609"
    by (rule round_even_near) simp
  then show ?thesis
    using rnd_scaled [of "33554435 / 4" "- 23"] by simp
qed

lemma dynamic_smoother_register_leaves_inputs:
  "low1 (snd (dynamic_smoother_call (Fin (3 / 33554432))
      (snd (dynamic_smoother_call (Fin (- 1))
         \<lparr>sense = Fin 2, wc = Fin (1 / 4), g0 = Fin 1, low1 = 0, low2 = 0\<rparr>))))
     = Fin (1 / 8388608)
   \<and> Fin (- 1) < Fin (3 / 33554432) \<and> Fin (3 / 33554432) < Fin (1 / 8388608)"
  using is_f32_examples_small [THEN rnd_id] rnd_above_1
  by (simp add: dynamic_smoother_call_def dynamic_smoother_g_def std_min_def Let_def f32_arith)



subsection \<open>Zero-cross detector\<close>

lemma zero_cross_call_state: "zc_state (snd (zero_cross_call cmp s st)) = zc_state st"
  by (simp add: zero_cross_call_def split_beta)

lemma zero_cross_run_state: "zc_state (snd (zero_cross_run cmp ss st)) = zc_state st"
proof (induction ss arbitrary: st)
  case Nil
  show ?case by simp
next
  case (Cons s ss)
  show ?case
    by (simp add: split_beta Cons.IH zero_cross_call_state)
qed

text \<open>
  C10. \<^verbatim>\<open>zero_cross::operator()\<close> does not write \<^verbatim>\<open>_state\<close>: after any stream of
  calls on a constructed detector it still is false. The result of a call is the
  comparator's answer for the sample against the reference 0, from the comparator's
  state; the value of \<^verbatim>\<open>_state\<close> has no part in it.
\<close>

theorem zero_cross_state_unused:
  "zc_state (snd (zero_cross_call cmp s st)) = zc_state st
   \<and> \<not> zc_state (snd (zero_cross_run cmp ss (zero_cross_init mk hysteresis)))
   \<and> fst (zero_cross_call cmp s st) = of_bool (fst (cmp s 0 (zc_cmp st)))
   \<and> zc_cmp (snd (zero_cross_call cmp s st)) = snd (cmp s 0 (zc_cmp st))
   \<and> fst (zero_cross_call cmp s (st\<lparr>zc_state := b\<rparr>)) = fst (zero_cross_call cmp s st)"
  by (simp add: zero_cross_run_state zero_cross_call_state)
     (simp add: zero_cross_call_def zero_cross_init_def split_beta)

subsection \<open>Read accessors\<close>

text \<open>
  C9. The no-argument overloads of \<^verbatim>\<open>dynamic_lowpass\<close> and \<^verbatim>\<open>onset_detector\<close>
  return \<^verbatim>\<open>_y\<close> and \<^verbatim>\<open>_val\<close> and leave every member as it was. Read after a
  processing call, they give the value that call returned.
\<close>

theorem read_accessors_frame:
  "dynamic_lowpass_read dl = (dl_y dl, dl)
   \<and> onset_detector_read od = (od_val od, od)
   \<and> fst (dynamic_lowpass_read (snd (dynamic_lowpass_call s a dl))) = fst (dynamic_lowpass_call s a dl)
   \<and> fst (onset_detector_read (snd (onset_detector_call envf lpf compf s od)))
       = fst (onset_detector_call envf lpf compf s od)"
  by (simp add: dynamic_lowpass_read_def onset_detector_read_def dynamic_lowpass_call_def
      onset_detector_call_def Let_def split_beta)

subsection \<open>Onset detector\<close>

text \<open>
  C3. One call of \<^verbatim>\<open>onset_detector::operator()\<close> on the sample \<open>s\<close> feeds \<open>|s|\<close> to
  the envelope follower, the envelope to the low-pass, and the envelope scaled by the
  sensitivity together with the low-pass output to the comparator, each collaborator
  advancing once. If the comparator answers true, the latch \<^verbatim>\<open>_val\<close> becomes the
  maximum of its old value and \<open>|s|\<close> and is returned; if it answers false, the latch
  becomes 0 and 0 is returned, on that very call.
\<close>

theorem onset_detector_call_spec:
  "(let abs_s = \<bar>s\<bar>;
        env = fst (envf abs_s (od_env st));
        lp = fst (lpf env (od_lp st));
        above = fst (compf (env * od_sensitivity st) lp (od_comp st));
        r = onset_detector_call envf lpf compf s st
    in od_env (snd r) = snd (envf abs_s (od_env st))
       \<and> od_lp (snd r) = snd (lpf env (od_lp st))
       \<and> od_comp (snd r) = snd (compf (env * od_sensitivity st) lp (od_comp st))
       \<and> od_sensitivity (snd r) = od_sensitivity st
       \<and> (above \<longrightarrow> od_val (snd r) = max (od_val st) abs_s \<and> fst r = od_val (snd r))
       \<and> (\<not> above \<longrightarrow> od_val (snd r) = 0 \<and> fst r = 0))"
  by (simp add: onset_detector_call_def Let_def split_beta std_max_def max_def)

text \<open>
  An attack and its release on the collaborators modelled from the spec: envelope decay
  factor 1/2, low-pass coefficient 1/2, sensitivity 0.6, hysteresis 1/64. The sample
  \<open>-1\<close> trips the comparator (0.6 against 0.5) and latches 1; the following sample 0
  releases it (0.3 against 0.5) and the latch is 0.
\<close>

theorem onset_detector_call_spec_witness:
  "fst (schmitt_trigger_call (1 * (6 / 10)) (1 / 2) (schmitt_trigger_init (1 / 64)))
   \<and> fst (onset_detector_call peak_envelope_follower_call one_pole_lowpass_call schmitt_trigger_call (- 1)
        (onset_detector_init \<lparr>pe_d = 1 / 2, pe_y = 0\<rparr> (6 / 10) \<lparr>lp_a = 1 / 2, lp_y = 0\<rparr>
           (schmitt_trigger_init (1 / 64)))) = 1
   \<and> od_val (snd (onset_detector_call peak_envelope_follower_call one_pole_lowpass_call schmitt_trigger_call (- 1)
        (onset_detector_init \<lparr>pe_d = 1 / 2, pe_y = 0\<rparr> (6 / 10) \<lparr>lp_a = 1 / 2, lp_y = 0\<rparr>
           (schmitt_trigger_init (1 / 64))))) = 1
   \<and> \<not> fst (schmitt_trigger_call (1 / 2 * (6 / 10)) (1 / 2) \<lparr>st_hysteresis = 1 / 64, st_y = True\<rparr>)
   \<and> onset_detector_call peak_envelope_follower_call one_pole_lowpass_call schmitt_trigger_call 0
        \<lparr>od_env = \<lparr>pe_d = 1 / 2, pe_y = 1\<rparr>, od_sensitivity = 6 / 10, od_lp = \<lparr>lp_a = 1 / 2, lp_y = 1 / 2\<rparr>,
         od_comp = \<lparr>st_hysteresis = 1 / 64, st_y = True\<rparr>, od_val = 1\<rparr>
       = (0, \<lparr>od_env = \<lparr>pe_d = 1 / 2, pe_y = 1 / 2\<rparr>, od_sensitivity = 6 / 10,
              od_lp = \<lparr>lp_a = 1 / 2, lp_y = 1 / 2\<rparr>,
              od_comp = \<lparr>st_hysteresis = 1 / 64, st_y = False\<rparr>, od_val = 0\<rparr>)
   \<and> snd (onset_detector_call peak_envelope_follower_call one_pole_lowpass_call schmitt_trigger_call (- 1)
        (onset_detector_init \<lparr>pe_d = 1 / 2, pe_y = 0\<rparr> (6 / 10) \<lparr>lp_a = 1 / 2, lp_y = 0\<rparr>
           (schmitt_trigger_init (1 / 64))))
       = \<lparr>od_env = \<lparr>pe_d = 1 / 2, pe_y = 1\<rparr>, od_sensitivity = 6 / 10, od_lp = \<lparr>lp_a = 1 / 2, lp_y = 1 / 2\<rparr>,
          od_comp = \<lparr>st_hysteresis = 1 / 64, st_y = True\<rparr>, od_val = 1\<rparr>"
  using
    onset_detector_call_spec [of "- 1" peak_envelope_follower_call
      "onset_detector_init \<lparr>pe_d = 1 / 2, pe_y = 0\<rparr> (6 / 10) \<lparr>lp_a = 1 / 2, lp_y = 0\<rparr>
         (schmitt_trigger_init (1 / 64))" one_pole_lowpass_call schmitt_trigger_call]
    onset_detector_call_spec [of 0 peak_envelope_follower_call
      "\<lparr>od_env = \<lparr>pe_d = 1 / 2, pe_y = 1\<rparr>, od_sensitivity = 6 / 10, od_lp = \<lparr>lp_a = 1 / 2, lp_y = 1 / 2\<rparr>,
        od_comp = \<lparr>st_hysteresis = 1 / 64, st_y = True\<rparr>, od_val = 1\<rparr>"
      one_pole_lowpass_call schmitt_trigger_call]
  by (simp add: onset_detector_call_def onset_detector_init_def peak_envelope_follower_call_def
      one_pole_lowpass_call_def schmitt_trigger_call_def schmitt_trigger_init_def std_max_def Let_def)

end
